theory Spec2Isabelle
  imports Main "HOL-Library.Sublist" "HOL-Library.Char_ord" "HOL-Library.List_Lexorder"
begin

section \<open>JavaScript strings and values\<close>

text \<open>
  A JavaScript string is modelled as the list of its UTF-16 code units. The type
  \<^typ>\<open>char\<close> has 256 elements, so the model covers the strings whose code units lie
  below 0x100 (ISO-8859-1); on these the operations below are the ones of ECMAScript.
  The line feed is \<^term>\<open>CHR 0x0A\<close> and the single quote is \<^term>\<open>CHR 0x27\<close>.
\<close>

datatype js_error = TypeError | SyntaxError | Error

text \<open>
  The values \<open>JSON.parse\<close> and \<open>response.json()\<close> produce. A number is represented by
  the decimal text that \<open>Number.prototype.toString\<close> gives it, which determines a
  finite number up to the sign of zero. An object is the list of its own properties.
\<close>

datatype json =
    JNull
  | JBool bool
  | JNum string
  | JStr string
  | JArr "json list"
  | JObj "(string \<times> json) list"

text \<open>\<open>WhiteSpace\<close> and \<open>LineTerminator\<close> code units below 0x100, as \<open>trim\<close> removes them.\<close>

definition is_ws :: "char \<Rightarrow> bool" where
  "is_ws c \<longleftrightarrow> c \<in> set [CHR 0x09, CHR 0x0A, CHR 0x0B, CHR 0x0C, CHR 0x0D, CHR 0x20, CHR 0xA0]"

definition trim :: "string \<Rightarrow> string" where
  "trim s = rev (dropWhile is_ws (rev (dropWhile is_ws s)))"

text \<open>\<open>s.indexOf(c)\<close> for a one-character search string: the first index, or -1.\<close>

fun indexOf :: "string \<Rightarrow> char \<Rightarrow> int" where
  "indexOf [] c = -1"
| "indexOf (x # xs) c =
     (if x = c then 0 else (let r = indexOf xs c in if r < 0 then -1 else r + 1))"

text \<open>\<open>s.substring(a, b)\<close>: both indices are clamped to the string and swapped if needed.\<close>

definition substring :: "string \<Rightarrow> int \<Rightarrow> int \<Rightarrow> string" where
  "substring s a b =
     (let n = int (length s);
          a' = min (max a 0) n;
          b' = min (max b 0) n;
          lo = min a' b';
          hi = max a' b'
      in take (nat (hi - lo)) (drop (nat lo) s))"

definition substring_from :: "string \<Rightarrow> int \<Rightarrow> string" where
  "substring_from s a = substring s a (int (length s))"

text \<open>\<open>s.slice(a, b)\<close>: a negative index counts from the end.\<close>

definition slice :: "string \<Rightarrow> int \<Rightarrow> int \<Rightarrow> string" where
  "slice s a b =
     (let n = int (length s);
          from = (if a < 0 then max (n + a) 0 else min a n);
          to = (if b < 0 then max (n + b) 0 else min b n)
      in take (nat (to - from)) (drop (nat from) s))"

definition startsWith :: "string \<Rightarrow> string \<Rightarrow> bool" where
  "startsWith s p \<longleftrightarrow> prefix p s"

definition endsWith :: "string \<Rightarrow> string \<Rightarrow> bool" where
  "endsWith s p \<longleftrightarrow> suffix p s"

text \<open>\<open>s.split(c)\<close> for a one-character separator; the empty string gives one empty piece.\<close>

fun split_on :: "char \<Rightarrow> string \<Rightarrow> string list" where
  "split_on c [] = [[]]"
| "split_on c (x # xs) =
     (if x = c then [] # split_on c xs
      else (case split_on c xs of
              [] \<Rightarrow> [[x]]
            | y # ys \<Rightarrow> (x # y) # ys))"

text \<open>\<open>s.includes(t)\<close>: \<open>t\<close> occurs in \<open>s\<close> as a contiguous substring.\<close>

definition includes_str :: "string \<Rightarrow> string \<Rightarrow> bool" where
  "includes_str s t \<longleftrightarrow> sublist t s"

text \<open>
  \<open>toLowerCase\<close> on code units below 0x100: the letters A-Z and the letters
  U+00C0-U+00DE other than the multiplication sign U+00D7 move up by 0x20.
\<close>

definition lower_char :: "char \<Rightarrow> char" where
  "lower_char c =
     (let n = (of_char c :: nat)
      in if (0x41 \<le> n \<and> n \<le> 0x5A) \<or> (0xC0 \<le> n \<and> n \<le> 0xDE \<and> n \<noteq> 0xD7)
         then char_of (n + 0x20) else c)"

definition toLowerCase :: "string \<Rightarrow> string" where
  "toLowerCase s = map lower_char s"

section \<open>Front matter (post-loader.js)\<close>

text \<open>
  The first place where \<open>needle\<close> occurs in a text: the text before it and the text
  after it.
\<close>

fun split_first :: "string \<Rightarrow> string \<Rightarrow> (string \<times> string) option" where
  "split_first needle [] = (if needle = [] then Some ([], []) else None)"
| "split_first needle (c # cs) =
     (if prefix needle (c # cs) then Some ([], drop (length needle) (c # cs))
      else map_option (\<lambda>(a, b). (c # a, b)) (split_first needle cs))"

text \<open>
  \<open>content.match(/^---\n([\s\S]*?)\n---\n([\s\S]*)$/)\<close>. The expression has no flags, so
  \<open>^\<close> and \<open>$\<close> are the ends of the input; the first group is lazy and the second takes
  all that is left, so the closing delimiter is the first \<open>\n---\n\<close> after the opening
  four characters. The result is the two groups, or \<open>None\<close> for \<open>null\<close>.
\<close>

definition match_front_matter :: "string \<Rightarrow> (string \<times> string) option" where
  "match_front_matter content =
     (if prefix ''---\<newline>'' content
      then split_first ''\<newline>---\<newline>'' (drop 4 content)
      else None)"

type_synonym metadata = "string \<rightharpoonup> json"

record parsed_document =
  metadata :: metadata
  content :: string

text \<open>
  The quote step of the line parser:
  \<^verbatim>\<open>if ((value.startsWith('"') && value.endsWith('"')) ||
      (value.startsWith("'") && value.endsWith("'"))) value = value.slice(1, -1);\<close>
\<close>

definition unquote :: "string \<Rightarrow> string" where
  "unquote v =
     (if (startsWith v ''\"'' \<and> endsWith v ''\"'') \<or>
         (startsWith v [CHR 0x27] \<and> endsWith v [CHR 0x27])
      then slice v 1 (-1) else v)"

definition is_quote :: "char \<Rightarrow> bool" where
  "is_quote c \<longleftrightarrow> c = CHR 0x27 \<or> c = CHR ''\"''"

text \<open>
  \<open>tag.replace(/^['"]|['"]$/g, '')\<close>. Every match is one character: the first
  alternative matches a quote at index 0, the second a quote that is the last character.
  The global scan visits each index once and deletes the characters that match.
\<close>

fun delete_edge_quotes :: "bool \<Rightarrow> string \<Rightarrow> string" where
  "delete_edge_quotes at_start [] = []"
| "delete_edge_quotes at_start (c # cs) =
     (if is_quote c \<and> (at_start \<or> cs = []) then delete_edge_quotes False cs
      else c # delete_edge_quotes False cs)"

definition replace_edge_quotes :: "string \<Rightarrow> string" where
  "replace_edge_quotes s = delete_edge_quotes True s"

text \<open>
  The \<open>try\<close>/\<open>catch\<close> around \<open>JSON.parse(value)\<close>. \<open>JSON.parse\<close> is the platform's function
  and is a parameter of the model: it returns the parsed value or throws.
\<close>

definition parse_tags :: "(string \<Rightarrow> js_error + json) \<Rightarrow> string \<Rightarrow> json" where
  "parse_tags JSON_parse v =
     (case JSON_parse v of
        Inr a \<Rightarrow> a
      | Inl e \<Rightarrow>
          JArr (map (\<lambda>tag. JStr (replace_edge_quotes (trim tag)))
                 (split_on CHR '','' (slice v 1 (-1)))))"

text \<open>
  \<open>metadata[key] = value\<close> on an object created by \<open>{}\<close>: the key \<open>__proto__\<close> reaches
  the setter of \<open>Object.prototype\<close>, which ignores a string.
\<close>

definition set_property :: "metadata \<Rightarrow> string \<Rightarrow> json \<Rightarrow> metadata" where
  "set_property md key v = (if key = ''__proto__'' then md else md(key \<mapsto> v))"

text \<open>
  The body of the \<open>lines.forEach\<close> callback, with its completion: \<open>Inl\<close> would be an
  error that leaves the callback. The input is a string, so the string methods do not
  throw, and the one call that can throw is caught in \<open>parse_tags\<close>.
\<close>

definition parse_line :: "(string \<Rightarrow> js_error + json) \<Rightarrow> metadata \<Rightarrow> string \<Rightarrow> js_error + metadata" where
  "parse_line JSON_parse md line =
     (let colonIndex = indexOf line CHR '':''
      in if colonIndex > 0 then
           (let key = trim (substring line 0 colonIndex);
                v = unquote (trim (substring_from line (colonIndex + 1)));
                v' = (if key = ''tags'' \<and> startsWith v ''['' \<and> endsWith v '']''
                      then parse_tags JSON_parse v else JStr v)
            in Inr (set_property md key v'))
         else Inr md)"

fun forEach_line :: "(metadata \<Rightarrow> string \<Rightarrow> js_error + metadata) \<Rightarrow> string list \<Rightarrow> metadata \<Rightarrow> js_error + metadata" where
  "forEach_line f [] md = Inr md"
| "forEach_line f (l # ls) md =
     (case f md l of Inl e \<Rightarrow> Inl e | Inr md' \<Rightarrow> forEach_line f ls md')"

definition parseFrontMatter :: "(string \<Rightarrow> js_error + json) \<Rightarrow> string \<Rightarrow> js_error + parsed_document" where
  "parseFrontMatter JSON_parse raw =
     (case match_front_matter raw of
        None \<Rightarrow> Inr \<lparr>metadata = Map.empty, content = raw\<rparr>
      | Some (frontMatter, postContent) \<Rightarrow>
          (case forEach_line (parse_line JSON_parse) (split_on CHR 0x0A frontMatter) Map.empty of
             Inl e \<Rightarrow> Inl e
           | Inr md \<Rightarrow> Inr \<lparr>metadata = md, content = postContent\<rparr>))"

text \<open>
  The fallback of the tags step in the words of the specification: strip the brackets,
  split on the comma, trim each element, and strip one layer of leading and trailing
  quote characters from each element.
\<close>

definition strip_quote_layer :: "string \<Rightarrow> string" where
  "strip_quote_layer s =
     (let s1 = (if s \<noteq> [] \<and> is_quote (hd s) then tl s else s)
      in if s1 \<noteq> [] \<and> is_quote (last s1) then butlast s1 else s1)"

definition spec_tags_fallback :: "string \<Rightarrow> json" where
  "spec_tags_fallback v =
     JArr (map (\<lambda>e. JStr (strip_quote_layer (trim e))) (split_on CHR '','' (butlast (tl v))))"

section \<open>The post list (app.js)\<close>

text \<open>
  The module state holds what \<open>response.json()\<close> delivered, which may be any JSON value,
  so the functions of app.js are modelled on JSON values, with every \<open>TypeError\<close> of a
  missing method or of a property read on \<open>null\<close> as an outcome. A property that is read
  and absent is \<open>undefined\<close>: the \<open>None\<close> of a \<^typ>\<open>json option\<close>.
\<close>

text \<open>The truth value of \<open>null\<close> or a string: only a non-empty string is true.\<close>

fun truthy :: "string option \<Rightarrow> bool" where
  "truthy None = False"
| "truthy (Some s) = (s \<noteq> [])"

text \<open>The truth value of a JSON value; the number zero is the one whose text is \<open>0\<close>.\<close>

fun json_truthy :: "json \<Rightarrow> bool" where
  "json_truthy JNull = False"
| "json_truthy (JBool b) = b"
| "json_truthy (JNum n) = (n \<noteq> ''0'')"
| "json_truthy (JStr s) = (s \<noteq> [])"
| "json_truthy (JArr xs) = True"
| "json_truthy (JObj props) = True"

definition truthy_value :: "json option \<Rightarrow> bool" where
  "truthy_value v = (case v of None \<Rightarrow> False | Some x \<Rightarrow> json_truthy x)"

text \<open>
  \<open>post.name\<close> for the names app.js reads of a post (\<open>tags\<close>, \<open>file\<close>, \<open>title\<close>, \<open>date\<close>,
  \<open>category\<close>, \<open>excerpt\<close>), none of which a prototype defines: an object has the
  properties of its own, every other value but \<open>null\<close> has none of these, and the read
  throws on \<open>null\<close>.
\<close>

fun own_property :: "json \<Rightarrow> string \<Rightarrow> json option" where
  "own_property (JObj props) name = map_of props name"
| "own_property v name = None"

definition property :: "json \<Rightarrow> string \<Rightarrow> js_error + json option" where
  "property v name = (if v = JNull then Inl TypeError else Inr (own_property v name))"

text \<open>
  \<open>ToString\<close> of a JSON value. An array is joined with commas, \<open>null\<close> elements giving
  the empty string. An object without a property \<open>toString\<close> of its own is
  \<open>[object Object]\<close>; with one, which is not a function, no conversion is left and a
  \<open>TypeError\<close> is thrown.
\<close>

fun to_string :: "json \<Rightarrow> js_error + string"
  and join_elements :: "json list \<Rightarrow> js_error + string" where
  "to_string JNull = Inr ''null''"
| "to_string (JBool b) = Inr (if b then ''true'' else ''false'')"
| "to_string (JNum n) = Inr n"
| "to_string (JStr s) = Inr s"
| "to_string (JArr xs) = join_elements xs"
| "to_string (JObj props) =
     (if map_of props ''toString'' = None then Inr ''[object Object]'' else Inl TypeError)"
| "join_elements [] = Inr []"
| "join_elements (x # xs) =
     (case (if x = JNull then Inr [] else to_string x) of
        Inl e \<Rightarrow> Inl e
      | Inr a \<Rightarrow>
          if xs = [] then Inr a
          else (case join_elements xs of
                  Inl e \<Rightarrow> Inl e
                | Inr b \<Rightarrow> Inr (a @ '','' @ b)))"

text \<open>
  Whether \<open>escapeHTML(str)\<close> throws: a false value returns at once; any other is assigned
  to \<open>div.textContent\<close>, which converts it to a string.
\<close>

definition escapeHTML_throws :: "json option \<Rightarrow> bool" where
  "escapeHTML_throws str =
     (case str of None \<Rightarrow> False | Some v \<Rightarrow> json_truthy v \<and> isl (to_string v))"

text \<open>
  Whether converting a value that was read of a post throws, as in
  \<open>encodeURIComponent(post.file)\<close> and \<open>new Date(post.date)\<close>; \<open>undefined\<close> converts.
\<close>

definition conversion_throws :: "json option \<Rightarrow> bool" where
  "conversion_throws x = (case x of None \<Rightarrow> False | Some v \<Rightarrow> isl (to_string v))"

section \<open>Post records\<close>

text \<open>
  A Post of the specification: \<open>category\<close> and \<open>tags\<close> are optional, \<open>None\<close> is a
  property that is absent. \<open>post_json\<close> is the JSON object of a Post and \<open>PostArray\<close> the
  JSON array of a sequence of Posts.
\<close>

record post =
  file_field :: string
  title :: string
  date :: string
  category :: "string option"
  excerpt :: string
  tags :: "string list option"

definition post_json :: "post \<Rightarrow> json" where
  "post_json p =
     JObj ([(''file'', JStr (file_field p)), (''title'', JStr (title p)), (''date'', JStr (date p))] @
           (case category p of None \<Rightarrow> [] | Some c \<Rightarrow> [(''category'', JStr c)]) @
           [(''excerpt'', JStr (excerpt p))] @
           (case tags p of None \<Rightarrow> [] | Some ts \<Rightarrow> [(''tags'', JArr (map JStr ts))]))"

definition PostArray :: "post list \<Rightarrow> json" where
  "PostArray P = JArr (map post_json P)"

section \<open>State and functions of app.js\<close>

text \<open>How a statement sequence ends: normally, or by throwing.\<close>

datatype completion = Normal | Throw js_error

text \<open>
  The module state of app.js (\<open>allPosts\<close>, \<open>allTags\<close>, \<open>activeTag\<close>) and the part of the
  document the scripts write. The markup is not modelled: it is a function of the values
  it is built from, and those stand for it. \<open>postsList\<close> is the list of posts whose markup
  \<open>postsList.innerHTML\<close> holds; \<open>tagsContainer_markup\<close> is the pair of \<open>activeTag\<close> and
  \<open>allTags\<close> from which \<open>renderTags\<close> built the tag bar, \<open>None\<close> before it has built any
  (the \<open>data-tag\<close> of a button is what the parser reads of the escaped tag between double
  quotes, and \<open>escapeHTML\<close> leaves a double quote as it is, so it need not be the tag);
  \<open>loading_failed\<close> says whether the loading element holds the failure message. A
  \<open>display\<close> is \<open>None\<close> until a script sets it. The elements are assumed to exist.
\<close>

record page =
  allPosts :: json
  allTags :: "json list"
  activeTag :: "string option"
  postsList :: "json list"
  noPosts_display :: "string option"
  loading_display :: "string option"
  loading_failed :: bool
  tagsContainer_display :: "string option"
  tagsContainer_markup :: "(string option \<times> json list) option"
  searchInput_value :: string

text \<open>
  \<open>tagSet.add(tag)\<close>: a \<open>Set\<close> keeps its elements in insertion order. Strings, numbers,
  booleans and \<open>null\<close> are the same element when they are equal; every array and object
  of a parsed document is an element of its own.
\<close>

fun is_primitive :: "json \<Rightarrow> bool" where
  "is_primitive (JArr xs) = False"
| "is_primitive (JObj props) = False"
| "is_primitive v = True"

definition tagSet_add :: "json list \<Rightarrow> json \<Rightarrow> json list" where
  "tagSet_add tagSet tag =
     (if is_primitive tag \<and> tag \<in> set tagSet then tagSet else tagSet @ [tag])"

fun Array_isArray :: "json option \<Rightarrow> bool" where
  "Array_isArray (Some (JArr xs)) = True"
| "Array_isArray v = False"

fun array_elements :: "json option \<Rightarrow> json list" where
  "array_elements (Some (JArr xs)) = xs"
| "array_elements v = []"

text \<open>
  The callback of \<open>allPosts.forEach\<close>:
  \<^verbatim>\<open>if (post.tags && Array.isArray(post.tags)) post.tags.forEach(tag => tagSet.add(tag));\<close>
\<close>

definition add_post_tags :: "json list \<Rightarrow> json \<Rightarrow> js_error + json list" where
  "add_post_tags tagSet p =
     (case property p ''tags'' of
        Inl e \<Rightarrow> Inl e
      | Inr t \<Rightarrow>
          if truthy_value t \<and> Array_isArray t
          then Inr (foldl tagSet_add tagSet (array_elements t))
          else Inr tagSet)"

fun forEach_post :: "json list \<Rightarrow> json list \<Rightarrow> js_error + json list" where
  "forEach_post tagSet [] = Inr tagSet"
| "forEach_post tagSet (p # ps) =
     (case add_post_tags tagSet p of
        Inl e \<Rightarrow> Inl e
      | Inr tagSet' \<Rightarrow> forEach_post tagSet' ps)"

text \<open>
  \<open>Array.from(tagSet).sort()\<close>: without a comparison function the elements are compared
  as strings, by code units, and the sort is stable. Fewer than two elements are not
  compared; with two or more every element is converted, and a conversion that throws
  ends the sort.
\<close>

definition js_sort :: "json list \<Rightarrow> js_error + json list" where
  "js_sort xs =
     (if length xs < 2 then Inr xs
      else if list_ex (\<lambda>x. isl (to_string x)) xs then Inl TypeError
      else Inr (sort_key (\<lambda>x. case to_string x of Inr k \<Rightarrow> k | Inl e \<Rightarrow> []) xs))"

text \<open>
  \<open>extractTags\<close>. A value that is not an array has no \<open>forEach\<close>, so the call throws;
  \<open>allTags\<close> is assigned when nothing has thrown.
\<close>

definition extractTags :: "page \<Rightarrow> completion \<times> page" where
  "extractTags s =
     (case allPosts s of
        JArr ps \<Rightarrow>
          (case forEach_post [] ps of
             Inl e \<Rightarrow> (Throw e, s)
           | Inr tagSet \<Rightarrow>
               (case js_sort tagSet of
                  Inl e \<Rightarrow> (Throw e, s)
                | Inr sorted_tags \<Rightarrow> (Normal, s\<lparr>allTags := sorted_tags\<rparr>)))
      | v \<Rightarrow> (Throw TypeError, s))"

text \<open>
  \<open>renderTags\<close>. The markup is built with \<open>escapeHTML(tag)\<close> for every tag before it is
  assigned, so a tag whose conversion throws leaves the tag bar as it was.
\<close>

definition renderTags :: "page \<Rightarrow> completion \<times> page" where
  "renderTags s =
     (if allTags s = [] then (Normal, s\<lparr>tagsContainer_display := Some ''none''\<rparr>)
      else if list_ex (\<lambda>tag. escapeHTML_throws (Some tag)) (allTags s) then (Throw TypeError, s)
      else (Normal, s\<lparr>tagsContainer_markup := Some (activeTag s, allTags s)\<rparr>))"

text \<open>
  Whether the markup of the tags of a post throws:
  \<^verbatim>\<open>post.tags && post.tags.length > 0 ? ...post.tags.map(tag => ...escapeHTML(tag)...) : ''\<close>
  An array has its length and \<open>map\<close>. A string that is true has a positive length and no
  \<open>map\<close>. A number or boolean has no \<open>length\<close>. An object has the \<open>length\<close> that is a
  property of its own, if any, and no \<open>map\<close> that is a function; the comparison \<open>v > 0\<close>
  of that \<open>length\<close> with zero is the platform's (a conversion to a number, which may throw)
  and is the parameter \<open>gt_zero\<close> of the model.
\<close>

definition tags_markup_throws :: "(json \<Rightarrow> js_error + bool) \<Rightarrow> json option \<Rightarrow> bool" where
  "tags_markup_throws gt_zero t =
     (truthy_value t \<and>
      (case t of
         Some (JArr xs) \<Rightarrow> list_ex (\<lambda>tag. escapeHTML_throws (Some tag)) xs
       | Some (JStr str) \<Rightarrow> True
       | Some (JObj props) \<Rightarrow>
           (case map_of props ''length'' of
              None \<Rightarrow> False
            | Some v \<Rightarrow> (case gt_zero v of Inl e \<Rightarrow> True | Inr b \<Rightarrow> b))
       | v \<Rightarrow> False))"

text \<open>
  Whether the callback of \<open>posts.map\<close> in \<open>renderPosts\<close> throws on a post. Every error it
  can throw is a \<open>TypeError\<close>: the read of \<open>post.tags\<close> on \<open>null\<close>, the markup of the tags,
  \<open>encodeURIComponent(post.file)\<close>, \<open>escapeHTML\<close> of the title, the category (when it is
  true) and the excerpt, and \<open>new Date(post.date)\<close> in \<open>formatDate\<close>.
\<close>

definition post_markup_throws :: "(json \<Rightarrow> js_error + bool) \<Rightarrow> json \<Rightarrow> bool" where
  "post_markup_throws gt_zero p =
     (case property p ''tags'' of
        Inl e \<Rightarrow> True
      | Inr t \<Rightarrow>
          tags_markup_throws gt_zero t \<or>
          conversion_throws (own_property p ''file'') \<or>
          escapeHTML_throws (own_property p ''title'') \<or>
          conversion_throws (own_property p ''date'') \<or>
          escapeHTML_throws (own_property p ''category'') \<or>
          escapeHTML_throws (own_property p ''excerpt''))"

text \<open>
  \<open>renderPosts(posts)\<close>. \<open>posts.length === 0\<close> holds for the empty array, the empty
  string and an object whose \<open>length\<close> is zero; \<open>null\<close> has no properties. Otherwise the
  message of no posts is hidden and \<open>posts.map\<close> is called, which only an array has; the
  list is assigned when the callback has thrown on no post.
\<close>

definition renderPosts :: "(json \<Rightarrow> js_error + bool) \<Rightarrow> page \<Rightarrow> json \<Rightarrow> completion \<times> page" where
  "renderPosts gt_zero s posts =
     (let empty_list = s\<lparr>postsList := [], noPosts_display := Some ''block''\<rparr>;
          shown = s\<lparr>noPosts_display := Some ''none''\<rparr>
      in case posts of
           JNull \<Rightarrow> (Throw TypeError, s)
         | JArr ps \<Rightarrow>
             (if ps = [] then (Normal, empty_list)
              else if list_ex (post_markup_throws gt_zero) ps then (Throw TypeError, shown)
              else (Normal, shown\<lparr>postsList := ps\<rparr>))
         | JStr str \<Rightarrow> (if str = [] then (Normal, empty_list) else (Throw TypeError, shown))
         | JObj props \<Rightarrow>
             (if map_of props ''length'' = Some (JNum ''0'') then (Normal, empty_list)
              else (Throw TypeError, shown))
         | v \<Rightarrow> (Throw TypeError, shown))"

text \<open>
  The callback of the tag step of \<open>filterPosts\<close>:
  \<^verbatim>\<open>post.tags && post.tags.includes(activeTag)\<close>
  An array includes a string when it holds it; a string includes it as a substring; no
  other value has the method.
\<close>

definition tag_matches :: "string \<Rightarrow> json \<Rightarrow> js_error + bool" where
  "tag_matches t p =
     (case property p ''tags'' of
        Inl e \<Rightarrow> Inl e
      | Inr v \<Rightarrow>
          if \<not> truthy_value v then Inr False
          else (case v of
                  Some (JArr xs) \<Rightarrow> Inr (JStr t \<in> set xs)
                | Some (JStr str) \<Rightarrow> Inr (includes_str str t)
                | w \<Rightarrow> Inl TypeError))"

text \<open>\<open>value.toLowerCase().includes(query)\<close>: only a string has \<open>toLowerCase\<close>.\<close>

fun lower_includes :: "json option \<Rightarrow> string \<Rightarrow> js_error + bool" where
  "lower_includes (Some (JStr str)) query = Inr (includes_str (toLowerCase str) query)"
| "lower_includes v query = Inl TypeError"

text \<open>\<open>tags.some(tag => tag.toLowerCase().includes(query))\<close> stops at the first tag found.\<close>

fun some_tag_includes :: "json list \<Rightarrow> string \<Rightarrow> js_error + bool" where
  "some_tag_includes [] query = Inr False"
| "some_tag_includes (tag # rest) query =
     (case lower_includes (Some tag) query of
        Inl e \<Rightarrow> Inl e
      | Inr found \<Rightarrow> if found then Inr True else some_tag_includes rest query)"

text \<open>
  The callback of the query step:
  \<^verbatim>\<open>post.title.toLowerCase().includes(query) ||
  post.excerpt.toLowerCase().includes(query) ||
  (post.tags && post.tags.some(tag => tag.toLowerCase().includes(query)))\<close>
  Each operand is evaluated only when those before it are false.
\<close>

definition query_matches :: "string \<Rightarrow> json \<Rightarrow> js_error + bool" where
  "query_matches query p =
     (case property p ''title'' of
        Inl e \<Rightarrow> Inl e
      | Inr title_value \<Rightarrow>
          (case lower_includes title_value query of
             Inl e \<Rightarrow> Inl e
           | Inr in_title \<Rightarrow>
               if in_title then Inr True
               else (case lower_includes (own_property p ''excerpt'') query of
                       Inl e \<Rightarrow> Inl e
                     | Inr in_excerpt \<Rightarrow>
                         if in_excerpt then Inr True
                         else (case own_property p ''tags'' of
                                 Some (JArr xs) \<Rightarrow> some_tag_includes xs query
                               | v \<Rightarrow> if truthy_value v then Inl TypeError else Inr False))))"

text \<open>\<open>filtered.filter(f)\<close>: only an array has the method; an error of \<open>f\<close> ends it.\<close>

fun filter_posts :: "(json \<Rightarrow> js_error + bool) \<Rightarrow> json list \<Rightarrow> js_error + json list" where
  "filter_posts f [] = Inr []"
| "filter_posts f (p # ps) =
     (case f p of
        Inl e \<Rightarrow> Inl e
      | Inr keep \<Rightarrow>
          (case filter_posts f ps of
             Inl e \<Rightarrow> Inl e
           | Inr kept \<Rightarrow> Inr (if keep then p # kept else kept)))"

definition js_filter :: "(json \<Rightarrow> js_error + bool) \<Rightarrow> json \<Rightarrow> js_error + json" where
  "js_filter f v =
     (case v of
        JArr ps \<Rightarrow> (case filter_posts f ps of Inl e \<Rightarrow> Inl e | Inr kept \<Rightarrow> Inr (JArr kept))
      | w \<Rightarrow> Inl TypeError)"

definition filterPosts :: "page \<Rightarrow> string \<Rightarrow> js_error + json" where
  "filterPosts s searchQuery =
     (case (case activeTag s of
              None \<Rightarrow> Inr (allPosts s)
            | Some t \<Rightarrow>
                if t \<noteq> [] then js_filter (tag_matches t) (allPosts s)
                else Inr (allPosts s)) of
        Inl e \<Rightarrow> Inl e
      | Inr filtered \<Rightarrow>
          if searchQuery \<noteq> [] then js_filter (query_matches (toLowerCase searchQuery)) filtered
          else Inr filtered)"

text \<open>
  The value \<open>handleTagClick\<close> assigns to \<open>activeTag\<close>: \<open>null\<close> when the selected tag is
  the active one, or is empty while no tag is active, and \<open>selectedTag || null\<close> otherwise.
\<close>

definition next_activeTag :: "string option \<Rightarrow> string \<Rightarrow> string option" where
  "next_activeTag a selectedTag =
     (if a = Some selectedTag \<or> (selectedTag = [] \<and> \<not> truthy a) then None
      else if selectedTag \<noteq> [] then Some selectedTag else None)"

text \<open>
  \<open>handleTagClick\<close>, for a click on a button whose \<open>data-tag\<close> is \<open>selectedTag\<close>. The
  handler calls \<open>filterPosts()\<close> with no argument, so the query is the default \<open>''\<close>. An
  error leaves the handler at the statement that threw.
\<close>

definition handleTagClick :: "(json \<Rightarrow> js_error + bool) \<Rightarrow> page \<Rightarrow> string \<Rightarrow> completion \<times> page" where
  "handleTagClick gt_zero s selectedTag =
     (let s1 = (if activeTag s = Some selectedTag \<or> (selectedTag = [] \<and> \<not> truthy (activeTag s))
                then s\<lparr>activeTag := None\<rparr>
                else s\<lparr>activeTag := (if selectedTag \<noteq> [] then Some selectedTag else None)\<rparr>)
      in case renderTags s1 of
           (Throw e, s2) \<Rightarrow> (Throw e, s2)
         | (Normal, s2) \<Rightarrow>
             (case filterPosts s2 [] of
                Inl e \<Rightarrow> (Throw e, s2)
              | Inr filteredPosts \<Rightarrow> renderPosts gt_zero s2 filteredPosts))"

definition updateSearchResults :: "(json \<Rightarrow> js_error + bool) \<Rightarrow> page \<Rightarrow> string \<Rightarrow> completion \<times> page" where
  "updateSearchResults gt_zero s query =
     (case filterPosts s query of
        Inl e \<Rightarrow> (Throw e, s)
      | Inr filteredPosts \<Rightarrow> renderPosts gt_zero s filteredPosts)"




text \<open>The state when the scripts have been loaded and no event has been handled.\<close>

definition initial_page :: page where
  "initial_page =
     \<lparr>allPosts = JArr [], allTags = [], activeTag = None, postsList = [],
      noPosts_display = None, loading_display = None, loading_failed = False,
      tagsContainer_display = None, tagsContainer_markup = None, searchInput_value = []\<rparr>"

text \<open>
  A value other than \<open>null\<close> on which none of the properties that app.js reads is defined:
  a boolean, a number, a string, an array, or the object \<open>{}\<close>.
\<close>

definition no_properties :: "json \<Rightarrow> bool" where
  "no_properties e \<longleftrightarrow> (case e of JNull \<Rightarrow> False | JObj props \<Rightarrow> props = [] | v \<Rightarrow> True)"

text \<open>
  Sample data for the concrete instances below: three Posts, an object whose \<open>tags\<close> is a
  string, and a comparison with zero that is right on the numbers 0 and 1.
\<close>

definition post_a :: post where
  "post_a = \<lparr>file_field = ''a.md'', title = ''Hello CSS'', date = ''2024-01-01'', category = None,
              excerpt = ''Intro'', tags = Some [''web'', ''css'']\<rparr>"

definition post_b :: post where
  "post_b = \<lparr>file_field = ''b.md'', title = ''Notes'', date = ''2024-02-01'', category = Some ''dev'',
              excerpt = ''About JS'', tags = Some [''js'', ''css'']\<rparr>"

definition post_c :: post where
  "post_c = \<lparr>file_field = ''c.md'', title = ''Plain'', date = ''2024-03-01'', category = None,
              excerpt = ''nothing'', tags = None\<rparr>"

definition string_tags_post :: json where
  "string_tags_post = JObj [(''title'', JStr ''Odd''), (''tags'', JStr ''css'')]"

definition sample_gt_zero :: "json \<Rightarrow> js_error + bool" where
  "sample_gt_zero v = Inr (v = JNum ''1'')"

section \<open>The search box (search.js)\<close>

text \<open>
  The timers of the event loop under a virtual clock that counts milliseconds. A pending
  timer is its handle, the time it is due and the query its callback has captured; the
  callback of \<open>handleSearch\<close> is the only one the scripts register. \<open>calls\<close> is the log
  of the calls \<open>window.updateSearchResults(query)\<close> with the time of each; app.js is
  loaded on the page, so the function is defined.
\<close>

record timer =
  timer_id :: nat
  due :: nat
  captured_query :: string

record search =
  now :: nat
  searchTimeout :: "nat option"
  timers :: "timer list"
  next_id :: nat
  calls :: "(nat \<times> string) list"

definition DEBOUNCE_DELAY :: nat where
  "DEBOUNCE_DELAY = 300"

text \<open>\<open>setTimeout(callback, delay)\<close> returns a fresh handle, a positive integer.\<close>

definition setTimeout :: "search \<Rightarrow> string \<Rightarrow> nat \<Rightarrow> nat \<times> search" where
  "setTimeout st query delay =
     (next_id st,
      st\<lparr>timers := timers st @ [\<lparr>timer_id = next_id st, due = now st + delay, captured_query = query\<rparr>],
         next_id := Suc (next_id st)\<rparr>)"

text \<open>\<open>clearTimeout(id)\<close>; a handle that is not pending is ignored.\<close>

definition clearTimeout :: "search \<Rightarrow> nat \<Rightarrow> search" where
  "clearTimeout st h = st\<lparr>timers := filter (\<lambda>tm. timer_id tm \<noteq> h) (timers st)\<rparr>"

text \<open>\<open>handleSearch\<close> for an input event whose target holds \<open>text\<close>.\<close>

definition handleSearch :: "search \<Rightarrow> string \<Rightarrow> search" where
  "handleSearch st text =
     (let query = trim text;
          st1 = (case searchTimeout st of
                   None \<Rightarrow> st
                 | Some h \<Rightarrow> if h \<noteq> 0 then clearTimeout st h else st);
          (h', st2) = setTimeout st1 query DEBOUNCE_DELAY
      in st2\<lparr>searchTimeout := Some h'\<rparr>)"

text \<open>
  The event loop up to time \<open>t\<close>: the timers due by then run in the order of their due
  times, each at its due time, and leave the list of pending timers.
\<close>

definition advance :: "search \<Rightarrow> nat \<Rightarrow> search" where
  "advance st t =
     st\<lparr>now := max (now st) t,
        timers := filter (\<lambda>tm. \<not> due tm \<le> t) (timers st),
        calls := calls st @
          map (\<lambda>tm. (due tm, captured_query tm))
            (sort_key due (filter (\<lambda>tm. due tm \<le> t) (timers st)))\<rparr>"

text \<open>
  A sequence of input events, each with its time and the text of the input. A timer due
  at the very time of an event runs before the event is handled.
\<close>

fun run_inputs :: "search \<Rightarrow> (nat \<times> string) list \<Rightarrow> search" where
  "run_inputs st [] = st"
| "run_inputs st ((t, text) # evs) = run_inputs (handleSearch (advance st t) text) evs"

definition initial_search :: search where
  "initial_search = \<lparr>now = 0, searchTimeout = None, timers = [], next_id = 1, calls = []\<rparr>"

text \<open>
  The trailing-edge debounce in the words of the specification: an input event leads to
  a call, 300 ms later and with its trimmed text, when no other event arrives in those
  300 ms; \<open>T\<close> is the time up to which the page is watched.
\<close>

fun debounced :: "(nat \<times> string) list \<Rightarrow> nat \<Rightarrow> (nat \<times> string) list" where
  "debounced [] T = []"
| "debounced [(t, text)] T = (if t + 300 \<le> T then [(t + 300, trim text)] else [])"
| "debounced ((t, text) # (t', text') # evs) T =
     (if t + 300 \<le> t' then [(t + 300, trim text)] else []) @ debounced ((t', text') # evs) T"

text \<open>
  The state right after \<open>handleSearch\<close> has handled an event of time \<open>t\<close> and text \<open>x\<close>:
  one timer is pending, it is the one \<open>searchTimeout\<close> names, and it is due 300 ms later.
\<close>

definition armed :: "search \<Rightarrow> nat \<Rightarrow> string \<Rightarrow> bool" where
  "armed st t x \<longleftrightarrow>
     (\<exists>h. h \<noteq> 0 \<and> searchTimeout st = Some h \<and>
          timers st = [\<lparr>timer_id = h, due = t + 300, captured_query = trim x\<rparr>]) \<and>
     next_id st \<noteq> 0 \<and> now st = t"

section \<open>The theme (theme.js)\<close>

text \<open>
  \<open>data_theme\<close> is the attribute \<open>data-theme\<close> of the document element and
  \<open>stored_theme\<close> the item \<open>theme\<close> of \<open>localStorage\<close>; \<open>None\<close> is an absent attribute or
  item. The call to \<open>window.updateGiscusTheme\<close> in \<open>setTheme\<close> posts a message to the
  comment frame and changes neither; it is left out.
\<close>

record theme_state =
  data_theme :: "string option"
  stored_theme :: "string option"

definition DARK_THEME :: string where
  "DARK_THEME = ''dark''"

definition LIGHT_THEME :: string where
  "LIGHT_THEME = ''light''"

definition setTheme :: "theme_state \<Rightarrow> string \<Rightarrow> theme_state" where
  "setTheme st theme = st\<lparr>data_theme := Some theme\<rparr>"

text \<open>\<open>initTheme\<close>; \<open>prefersDark\<close> is what the media query reports at that moment.\<close>

definition initTheme :: "theme_state \<Rightarrow> bool \<Rightarrow> theme_state" where
  "initTheme st prefersDark =
     (case stored_theme st of
        None \<Rightarrow> setTheme st (if prefersDark then DARK_THEME else LIGHT_THEME)
      | Some savedTheme \<Rightarrow>
          if savedTheme \<noteq> [] then setTheme st savedTheme
          else setTheme st (if prefersDark then DARK_THEME else LIGHT_THEME))"

text \<open>The listener \<open>initTheme\<close> registers for a change of the system's colour scheme.\<close>

definition on_system_change :: "theme_state \<Rightarrow> bool \<Rightarrow> theme_state" where
  "on_system_change st matches =
     (if \<not> truthy (stored_theme st)
      then setTheme st (if matches then DARK_THEME else LIGHT_THEME)
      else st)"

definition toggleTheme :: "theme_state \<Rightarrow> theme_state" where
  "toggleTheme st =
     (let currentTheme = data_theme st;
          newTheme = (if currentTheme = Some DARK_THEME then LIGHT_THEME else DARK_THEME)
      in (setTheme st newTheme)\<lparr>stored_theme := Some newTheme\<rparr>)"

datatype theme_event = SystemChange bool | ToggleClick

fun theme_step :: "theme_state \<Rightarrow> theme_event \<Rightarrow> theme_state" where
  "theme_step st (SystemChange matches) = on_system_change st matches"
| "theme_step st ToggleClick = toggleTheme st"

section \<open>Front matter: proofs\<close>

lemma split_first_None_iff: "split_first needle hay = None \<longleftrightarrow> \<not> sublist needle hay"
  by (induction hay) (auto simp: sublist_Cons_right)

lemma split_first_Some: "split_first needle hay = Some (a, b) \<Longrightarrow> hay = a @ needle @ b"
proof (induction hay arbitrary: a)
  case Nil
  then show ?case by (simp split: if_splits)
next
  case (Cons c cs)
  show ?case
  proof (cases "prefix needle (c # cs)")
    case True
    with Cons.prems have "a = []" "b = drop (length needle) (c # cs)" by auto
    moreover from True obtain r where "c # cs = needle @ r" by (auto simp: prefix_def)
    ultimately show ?thesis by simp
  next
    case False
    with Cons.prems obtain a' where "split_first needle cs = Some (a', b)" "a = c # a'"
      by (auto split: prod.splits)
    with Cons.IH show ?thesis by simp
  qed
qed

lemma match_front_matter_None:
  assumes "\<not> (\<exists>block body. raw = ''---\<newline>'' @ block @ ''\<newline>---\<newline>'' @ body)"
  shows "match_front_matter raw = None"
proof (cases "prefix ''---\<newline>'' raw")
  case False
  then show ?thesis by (simp add: match_front_matter_def)
next
  case True
  then obtain r where r: "raw = ''---\<newline>'' @ r" by (auto simp: prefix_def)
  have "\<not> sublist ''\<newline>---\<newline>'' r"
  proof
    assume "sublist ''\<newline>---\<newline>'' r"
    then obtain ps ss where "r = ps @ ''\<newline>---\<newline>'' @ ss" by (auto simp: sublist_def)
    with r assms show False by blast
  qed
  then have "split_first ''\<newline>---\<newline>'' r = None" by (simp add: split_first_None_iff)
  with True r show ?thesis by (simp add: match_front_matter_def)
qed

text \<open>A match gives the two groups around the first closing delimiter.\<close>

lemma match_front_matter_Some:
  assumes m: "match_front_matter raw = Some (block, body)"
  shows "raw = ''---\<newline>'' @ block @ ''\<newline>---\<newline>'' @ body"
proof -
  from m have p: "prefix ''---\<newline>'' raw"
    by (auto simp: match_front_matter_def split: if_splits)
  then obtain r where r: "raw = ''---\<newline>'' @ r" by (auto simp: prefix_def)
  from m p r have "split_first ''\<newline>---\<newline>'' r = Some (block, body)"
    by (simp add: match_front_matter_def)
  from split_first_Some[OF this] r show ?thesis by simp
qed

lemma parse_line_returns: "\<exists>md'. parse_line J md line = Inr md'"
  by (simp add: parse_line_def Let_def)

lemma forEach_line_returns: "\<exists>md'. forEach_line (parse_line J) ls md = Inr md'"
proof (induction ls arbitrary: md)
  case Nil
  show ?case by simp
next
  case (Cons l ls)
  obtain md1 where "parse_line J md l = Inr md1" using parse_line_returns by blast
  with Cons show ?case by simp
qed

lemma parseFrontMatter_returns: "\<exists>d. parseFrontMatter J raw = Inr d"
proof (cases "match_front_matter raw")
  case None
  then show ?thesis by (simp add: parseFrontMatter_def)
next
  case (Some gs)
  obtain fm pc where gs: "gs = (fm, pc)" by (cases gs)
  obtain md where "forEach_line (parse_line J) (split_on CHR 0x0A fm) Map.empty = Inr md"
    using forEach_line_returns by blast
  with Some gs show ?thesis by (simp add: parseFrontMatter_def)
qed

text \<open>Behind index 0 the scan can only delete a quote that ends the string.\<close>

lemma delete_edge_quotes_False:
  "delete_edge_quotes False s = (if s \<noteq> [] \<and> is_quote (last s) then butlast s else s)"
  by (induction s) auto

lemma replace_edge_quotes_layer: "replace_edge_quotes s = strip_quote_layer s"
  by (cases s)
    (auto simp: replace_edge_quotes_def strip_quote_layer_def delete_edge_quotes_False Let_def)

lemma slice_brackets: "slice v 1 (-1) = butlast (tl v)"
proof (cases v)
  case Nil
  then show ?thesis by (simp add: slice_def)
next
  case (Cons c cs)
  have "nat (int (length cs) - 1) = length cs - Suc 0" by arith
  with Cons show ?thesis by (simp add: slice_def butlast_conv_take Let_def)
qed

lemma parse_tags_fallback:
  "parse_tags J v = (case J v of Inr a \<Rightarrow> a | Inl e \<Rightarrow> spec_tags_fallback v)"
  by (simp add: parse_tags_def spec_tags_fallback_def slice_brackets replace_edge_quotes_layer
      split: sum.splits)

lemmas front_matter_eval =
  parseFrontMatter_def match_front_matter_def parse_line_def substring_def substring_from_def
  trim_def is_ws_def unquote_def startsWith_def endsWith_def slice_def parse_tags_def
  set_property_def replace_edge_quotes_def is_quote_def Let_def suffix_to_prefix

text \<open>
  C5. \<open>parseFrontMatter\<close> returns for every input and every behaviour of \<open>JSON.parse\<close>.
  When the input is not a line \<open>---\<close>, a block of lines, a line \<open>---\<close> and the remaining
  body, the result has no metadata and the whole input as its body; so it is for the
  input \<open>no delimiters here\<close>.
\<close>

theorem parseFrontMatter_without_front_matter:
  "(\<exists>d. parseFrontMatter JSON_parse raw = Inr d) \<and>
   ((\<nexists>block body. raw = ''---\<newline>'' @ block @ ''\<newline>---\<newline>'' @ body) \<longrightarrow>
      parseFrontMatter JSON_parse raw = Inr \<lparr>metadata = Map.empty, content = raw\<rparr>) \<and>
   parseFrontMatter JSON_parse ''no delimiters here'' =
     Inr \<lparr>metadata = Map.empty, content = ''no delimiters here''\<rparr>"
proof (intro conjI impI)
  show "\<exists>d. parseFrontMatter JSON_parse raw = Inr d" by (rule parseFrontMatter_returns)
next
  assume "\<nexists>block body. raw = ''---\<newline>'' @ block @ ''\<newline>---\<newline>'' @ body"
  then have "match_front_matter raw = None" by (rule match_front_matter_None)
  then show "parseFrontMatter JSON_parse raw = Inr \<lparr>metadata = Map.empty, content = raw\<rparr>"
    by (simp add: parseFrontMatter_def)
next
  show "parseFrontMatter JSON_parse ''no delimiters here'' =
     Inr \<lparr>metadata = Map.empty, content = ''no delimiters here''\<rparr>"
    by (simp add: parseFrontMatter_def match_front_matter_def)
qed

text \<open>
  An input whose first line is \<open>---\<close> followed by a space: the pattern is absent and the
  input comes back as the body.
\<close>

theorem parseFrontMatter_without_front_matter_witness:
  "parseFrontMatter (\<lambda>v. Inl SyntaxError) ''--- \<newline>title: x\<newline>---\<newline>text'' =
     Inr \<lparr>metadata = Map.empty, content = ''--- \<newline>title: x\<newline>---\<newline>text''\<rparr>"
  using parseFrontMatter_without_front_matter
    [of "\<lambda>v. Inl SyntaxError" "''--- \<newline>title: x\<newline>---\<newline>text''"]
  by simp

text \<open>
  C6. For a metadata line whose key is \<open>tags\<close> and whose value, after the quote step, is
  wrapped in \<open>[\<close> and \<open>]\<close>, the value stored is what \<open>JSON.parse\<close> returns, and when
  \<open>JSON.parse\<close> throws it is the fallback of the specification (brackets stripped, split
  on the comma, each element trimmed and stripped of one leading and one trailing quote);
  nothing is thrown. On a platform whose \<open>JSON.parse\<close> rejects \<open>[a, b]\<close> the example
  document has the title \<open>Hello\<close>, the tags \<open>a\<close> and \<open>b\<close>, and the body \<open>Body text\<close>.
\<close>

theorem tags_strict_parse_then_split:
  "(0 < indexOf line CHR '':'' \<and>
    trim (substring line 0 (indexOf line CHR '':'')) = ''tags'' \<and>
    v = unquote (trim (substring_from line (indexOf line CHR '':'' + 1))) \<and>
    startsWith v ''['' \<and> endsWith v '']'' \<longrightarrow>
      parse_line JSON_parse md line =
        Inr (md(''tags'' \<mapsto> (case JSON_parse v of Inr a \<Rightarrow> a | Inl e \<Rightarrow> spec_tags_fallback v)))) \<and>
   (isl (JSON_parse ''[a, b]'') \<longrightarrow>
      parseFrontMatter JSON_parse
          ''---\<newline>title: Hello\<newline>tags: [a, b]\<newline>---\<newline>Body text'' =
        Inr \<lparr>metadata = [''title'' \<mapsto> JStr ''Hello'', ''tags'' \<mapsto> JArr [JStr ''a'', JStr ''b'']],
             content = ''Body text''\<rparr>)"
proof (intro conjI impI)
  assume "0 < indexOf line CHR '':'' \<and>
    trim (substring line 0 (indexOf line CHR '':'')) = ''tags'' \<and>
    v = unquote (trim (substring_from line (indexOf line CHR '':'' + 1))) \<and>
    startsWith v ''['' \<and> endsWith v '']''"
  then show "parse_line JSON_parse md line =
        Inr (md(''tags'' \<mapsto> (case JSON_parse v of Inr a \<Rightarrow> a | Inl e \<Rightarrow> spec_tags_fallback v)))"
    by (auto simp: parse_line_def Let_def set_property_def parse_tags_fallback)
next
  assume "isl (JSON_parse ''[a, b]'')"
  then obtain e where "JSON_parse ''[a, b]'' = Inl e" by (cases "JSON_parse ''[a, b]''") auto
  then show "parseFrontMatter JSON_parse
          ''---\<newline>title: Hello\<newline>tags: [a, b]\<newline>---\<newline>Body text'' =
        Inr \<lparr>metadata = [''title'' \<mapsto> JStr ''Hello'', ''tags'' \<mapsto> JArr [JStr ''a'', JStr ''b'']],
             content = ''Body text''\<rparr>"
    by (simp add: front_matter_eval)
qed

text \<open>
  A \<open>JSON.parse\<close> that accepts \<open>["x"]\<close> and rejects the two other values: a malformed
  array is split, a well-formed one is parsed, and the example document is as stated.
\<close>

theorem tags_strict_parse_then_split_witness:
  "parse_line (\<lambda>v. if v = ''[\"x\"]'' then Inr (JArr [JStr ''x'']) else Inl SyntaxError) Map.empty
       ''tags: ['x', y\"]'' =
     Inr [''tags'' \<mapsto> JArr [JStr ''x'', JStr ''y'']] \<and>
   parse_line (\<lambda>v. if v = ''[\"x\"]'' then Inr (JArr [JStr ''x'']) else Inl SyntaxError) Map.empty
       ''tags: [\"x\"]'' =
     Inr [''tags'' \<mapsto> JArr [JStr ''x'']] \<and>
   parseFrontMatter (\<lambda>v. if v = ''[\"x\"]'' then Inr (JArr [JStr ''x'']) else Inl SyntaxError)
       ''---\<newline>title: Hello\<newline>tags: [a, b]\<newline>---\<newline>Body text'' =
     Inr \<lparr>metadata = [''title'' \<mapsto> JStr ''Hello'', ''tags'' \<mapsto> JArr [JStr ''a'', JStr ''b'']],
          content = ''Body text''\<rparr>"
  using tags_strict_parse_then_split
      [of "''tags: ['x', y\"]''" "''['x', y\"]''"
          "\<lambda>v. if v = ''[\"x\"]'' then Inr (JArr [JStr ''x'']) else Inl SyntaxError" Map.empty]
    tags_strict_parse_then_split
      [of "''tags: [\"x\"]''" "''[\"x\"]''"
          "\<lambda>v. if v = ''[\"x\"]'' then Inr (JArr [JStr ''x'']) else Inl SyntaxError" Map.empty]
  by (simp add: substring_def substring_from_def trim_def is_ws_def unquote_def startsWith_def
      endsWith_def slice_def suffix_to_prefix spec_tags_fallback_def strip_quote_layer_def
      is_quote_def Let_def)

text \<open>
  C7. The quote step on a value that is one quote character: \<open>startsWith\<close> and \<open>endsWith\<close>
  both hold of the one character, and \<open>slice(1, -1)\<close> leaves the empty string. The
  metadata line \<open>title: "\<close> therefore stores the empty string, not the quote.
\<close>

theorem unquote_single_quote_character:
  "unquote ''\"'' = [] \<and> unquote [CHR 0x27] = [] \<and>
   parseFrontMatter JSON_parse ''---\<newline>title: \"\<newline>---\<newline>body'' =
     Inr \<lparr>metadata = [''title'' \<mapsto> JStr []], content = ''body''\<rparr>"
  by (simp add: front_matter_eval)

section \<open>The post list: proofs\<close>

lemma post_json_not_null [simp]: "post_json p \<noteq> JNull" "JNull \<noteq> post_json p"
  by (simp_all add: post_json_def)

lemma post_json_properties [simp]:
  "own_property (post_json p) ''tags'' = map_option (\<lambda>ts. JArr (map JStr ts)) (tags p)"
  "own_property (post_json p) ''title'' = Some (JStr (title p))"
  "own_property (post_json p) ''excerpt'' = Some (JStr (excerpt p))"
  "own_property (post_json p) ''file'' = Some (JStr (file_field p))"
  "own_property (post_json p) ''date'' = Some (JStr (date p))"
  "own_property (post_json p) ''category'' = map_option JStr (category p)"
  by (simp_all add: post_json_def split: option.split)

lemma property_post_json [simp]: "property (post_json p) name = Inr (own_property (post_json p) name)"
  by (simp add: property_def)

lemma JStr_in_map [simp]: "JStr t \<in> JStr ` A \<longleftrightarrow> t \<in> A"
  by auto

lemma tag_matches_post:
  "tag_matches T (post_json p) = Inr (\<exists>ts. tags p = Some ts \<and> T \<in> set ts)"
  by (cases "tags p") (simp_all add: tag_matches_def truthy_value_def)

lemma some_tag_includes_strings:
  "some_tag_includes (map JStr ts) q = Inr (\<exists>tag\<in>set ts. sublist q (toLowerCase tag))"
  by (induction ts) (auto simp: includes_str_def)

lemma query_matches_post:
  "query_matches lq (post_json p) =
     Inr (sublist lq (toLowerCase (title p)) \<or> sublist lq (toLowerCase (excerpt p)) \<or>
          (\<exists>ts tag. tags p = Some ts \<and> tag \<in> set ts \<and> sublist lq (toLowerCase tag)))"
  by (cases "tags p")
    (auto simp: query_matches_def includes_str_def truthy_value_def some_tag_includes_strings)

lemma filter_posts_total:
  assumes "\<And>p. f (post_json p) = Inr (g p)"
  shows "filter_posts f (map post_json P) = Inr (map post_json (filter g P))"
  by (induction P) (simp_all add: assms)

lemma js_filter_PostArray:
  assumes "\<And>p. f (post_json p) = Inr (g p)"
  shows "js_filter f (PostArray P) = Inr (PostArray (filter g P))"
  by (simp add: js_filter_def PostArray_def filter_posts_total[of f g, OF assms])

lemma js_filter_tag_PostArray:
  "js_filter (tag_matches T) (PostArray Q) =
     Inr (PostArray (filter (\<lambda>p. \<exists>ts. tags p = Some ts \<and> T \<in> set ts) Q))"
  by (rule js_filter_PostArray) (rule tag_matches_post)

lemma js_filter_query_PostArray:
  "js_filter (query_matches lq) (PostArray Q) =
     Inr (PostArray (filter (\<lambda>p. sublist lq (toLowerCase (title p)) \<or>
        sublist lq (toLowerCase (excerpt p)) \<or>
        (\<exists>ts tag. tags p = Some ts \<and> tag \<in> set ts \<and> sublist lq (toLowerCase tag))) Q))"
  by (rule js_filter_PostArray) (rule query_matches_post)

text \<open>
  C2. On an array of posts \<open>P\<close>, with \<open>activeTag\<close> either \<open>null\<close> or a non-empty string
  (the values \<open>handleTagClick\<close> leaves there, by \<open>handleTagClick_activeTag_nonempty\<close>),
  \<open>filterPosts\<close> returns exactly the posts of \<open>P\<close>, in their order, that satisfy both
  steps: when a tag \<open>T\<close> is active, the post's \<open>tags\<close> holds a string equal to \<open>T\<close>; when
  the query \<open>q\<close> is not empty, the lowercased \<open>q\<close> is a substring of the lowercased title,
  of the lowercased excerpt or of some lowercased tag. The result is a subsequence of \<open>P\<close>.
\<close>

theorem filterPosts_tag_and_query:
  assumes "allPosts s = PostArray P" and "activeTag s \<noteq> Some []"
  shows "\<exists>out. filterPosts s q = Inr (PostArray out) \<and>
     out = filter (\<lambda>p.
        (\<forall>T. activeTag s = Some T \<longrightarrow> (\<exists>ts. tags p = Some ts \<and> T \<in> set ts)) \<and>
        (q \<noteq> [] \<longrightarrow>
           sublist (toLowerCase q) (toLowerCase (title p)) \<or>
           sublist (toLowerCase q) (toLowerCase (excerpt p)) \<or>
           (\<exists>ts tag. tags p = Some ts \<and> tag \<in> set ts \<and>
              sublist (toLowerCase q) (toLowerCase tag)))) P \<and>
     subseq out P"
proof -
  let ?keep = "\<lambda>p.
        (\<forall>T. activeTag s = Some T \<longrightarrow> (\<exists>ts. tags p = Some ts \<and> T \<in> set ts)) \<and>
        (q \<noteq> [] \<longrightarrow>
           sublist (toLowerCase q) (toLowerCase (title p)) \<or>
           sublist (toLowerCase q) (toLowerCase (excerpt p)) \<or>
           (\<exists>ts tag. tags p = Some ts \<and> tag \<in> set ts \<and>
              sublist (toLowerCase q) (toLowerCase tag)))"
  have "filterPosts s q = Inr (PostArray (filter ?keep P))"
  proof (cases "activeTag s")
    case None
    with assms(1) show ?thesis
      by (simp add: filterPosts_def js_filter_query_PostArray)
  next
    case (Some T)
    with assms show ?thesis
      by (simp add: filterPosts_def js_filter_tag_PostArray js_filter_query_PostArray conj_commute)
  qed
  moreover have "subseq (filter ?keep P) P" by simp
  ultimately show ?thesis by blast
qed

lemma escapeHTML_string [simp]: "\<not> escapeHTML_throws (Some (JStr x))"
  by (simp add: escapeHTML_throws_def)

lemma escapeHTML_strings [simp]:
  "\<not> list_ex (\<lambda>tag. escapeHTML_throws (Some tag)) (map JStr ts)"
  by (simp add: list_ex_iff)

lemma renderTags_strings:
  assumes "allTags s = map JStr ts"
  shows "renderTags s =
     (Normal, if ts = [] then s\<lparr>tagsContainer_display := Some ''none''\<rparr>
              else s\<lparr>tagsContainer_markup := Some (activeTag s, allTags s)\<rparr>)"
  using assms by (simp add: renderTags_def)

lemma post_markup_post_json [simp]: "\<not> post_markup_throws gt_zero (post_json p)"
  by (cases "tags p"; cases "category p")
    (simp_all add: post_markup_throws_def tags_markup_throws_def conversion_throws_def
      escapeHTML_throws_def truthy_value_def list_ex_iff)

lemma renderPosts_PostArray:
  "renderPosts gt_zero s (PostArray P) =
     (Normal, s\<lparr>postsList := map post_json P,
               noPosts_display := Some (if P = [] then ''block'' else ''none'')\<rparr>)"
  by (simp add: renderPosts_def PostArray_def list_ex_iff)

lemma handleTagClick_unfold:
  "handleTagClick gt_zero s tag =
     (case renderTags (s\<lparr>activeTag := next_activeTag (activeTag s) tag\<rparr>) of
        (Throw e, s2) \<Rightarrow> (Throw e, s2)
      | (Normal, s2) \<Rightarrow>
          (case filterPosts s2 [] of
             Inl e \<Rightarrow> (Throw e, s2)
           | Inr fp \<Rightarrow> renderPosts gt_zero s2 fp))"
proof -
  have "(if activeTag s = Some tag \<or> (tag = [] \<and> \<not> truthy (activeTag s))
         then s\<lparr>activeTag := None\<rparr>
         else s\<lparr>activeTag := (if tag \<noteq> [] then Some tag else None)\<rparr>) =
        s\<lparr>activeTag := next_activeTag (activeTag s) tag\<rparr>"
    by (simp add: next_activeTag_def)
  then show ?thesis by (simp add: handleTagClick_def Let_def)
qed

lemma renderTags_activeTag [simp]: "activeTag (snd (renderTags s)) = activeTag s"
  by (simp add: renderTags_def)

lemma renderPosts_activeTag [simp]: "activeTag (snd (renderPosts gt_zero s v)) = activeTag s"
  by (cases v) (simp_all add: renderPosts_def Let_def)

lemma handleTagClick_activeTag:
  "activeTag (snd (handleTagClick gt_zero s tag)) = next_activeTag (activeTag s) tag"
proof -
  let ?s1 = "s\<lparr>activeTag := next_activeTag (activeTag s) tag\<rparr>"
  obtain c s2 where r: "renderTags ?s1 = (c, s2)" by (cases "renderTags ?s1")
  then have a: "activeTag s2 = next_activeTag (activeTag s) tag"
    using renderTags_activeTag[of ?s1] by simp
  show ?thesis
  proof (cases c)
    case Normal
    with r a show ?thesis by (simp add: handleTagClick_unfold split: sum.split)
  next
    case (Throw e)
    with r a show ?thesis by (simp add: handleTagClick_unfold)
  qed
qed

lemma next_activeTag_nonempty: "next_activeTag a tag \<noteq> Some []"
  by (simp add: next_activeTag_def)

lemma handleTagClick_activeTag_nonempty:
  "activeTag (snd (handleTagClick gt_zero s tag)) \<noteq> Some []"
  by (simp add: handleTagClick_activeTag next_activeTag_nonempty)

lemma filterPosts_no_query:
  assumes "allPosts s = PostArray P" and "activeTag s \<noteq> Some []"
  shows "filterPosts s [] =
     Inr (PostArray (case activeTag s of
                       None \<Rightarrow> P
                     | Some T \<Rightarrow> filter (\<lambda>p. \<exists>ts. tags p = Some ts \<and> T \<in> set ts) P))"
  using assms
  by (cases "activeTag s") (simp_all add: filterPosts_def js_filter_tag_PostArray)

lemma handleTagClick_PostArray:
  assumes "allPosts s = PostArray P" and "allTags s = map JStr ts"
  shows "handleTagClick gt_zero s tag =
     (let a = next_activeTag (activeTag s) tag;
          ps = (case a of
                  None \<Rightarrow> P
                | Some T \<Rightarrow> filter (\<lambda>p. \<exists>ts. tags p = Some ts \<and> T \<in> set ts) P)
      in (Normal, (snd (renderTags (s\<lparr>activeTag := a\<rparr>)))
                    \<lparr>postsList := map post_json ps,
                     noPosts_display := Some (if ps = [] then ''block'' else ''none'')\<rparr>))"
proof -
  let ?s1 = "s\<lparr>activeTag := next_activeTag (activeTag s) tag\<rparr>"
  have t: "allTags ?s1 = map JStr ts" using assms(2) by simp
  let ?s2 = "snd (renderTags ?s1)"
  have r: "renderTags ?s1 = (Normal, ?s2)" by (simp add: renderTags_strings[OF t])
  have p: "allPosts ?s2 = PostArray P" and a: "activeTag ?s2 = next_activeTag (activeTag s) tag"
    using assms(1) by (simp_all add: renderTags_strings[OF t])
  have f: "filterPosts ?s2 [] =
     Inr (PostArray (case activeTag ?s2 of
                       None \<Rightarrow> P
                     | Some T \<Rightarrow> filter (\<lambda>p. \<exists>ts. tags p = Some ts \<and> T \<in> set ts) P))"
    by (rule filterPosts_no_query[OF p]) (simp add: a next_activeTag_nonempty)
  have "handleTagClick gt_zero s tag =
      (case renderTags ?s1 of
        (Throw e, s2) \<Rightarrow> (Throw e, s2)
      | (Normal, s2) \<Rightarrow>
          (case filterPosts s2 [] of
             Inl e \<Rightarrow> (Throw e, s2)
           | Inr fp \<Rightarrow> renderPosts gt_zero s2 fp))"
    by (rule handleTagClick_unfold)
  also have "\<dots> = (case filterPosts ?s2 [] of
             Inl e \<Rightarrow> (Throw e, ?s2)
           | Inr fp \<Rightarrow> renderPosts gt_zero ?s2 fp)"
    by (subst r) simp
  also have "\<dots> = renderPosts gt_zero ?s2 (PostArray (case activeTag ?s2 of
                       None \<Rightarrow> P
                     | Some T \<Rightarrow> filter (\<lambda>p. \<exists>ts. tags p = Some ts \<and> T \<in> set ts) P))"
    by (subst f) simp
  finally show ?thesis by (simp add: renderPosts_PostArray a Let_def)
qed

lemma handleTagClick_result:
  assumes "allPosts s = PostArray P" and "allTags s = map JStr ts"
  shows "fst (handleTagClick gt_zero s tag) = Normal"
    and "allPosts (snd (handleTagClick gt_zero s tag)) = PostArray P"
    and "allTags (snd (handleTagClick gt_zero s tag)) = map JStr ts"
    and "postsList (snd (handleTagClick gt_zero s tag)) =
           map post_json
             (case next_activeTag (activeTag s) tag of
                None \<Rightarrow> P
              | Some T \<Rightarrow> filter (\<lambda>p. \<exists>ts. tags p = Some ts \<and> T \<in> set ts) P)"
proof -
  let ?s1 = "s\<lparr>activeTag := next_activeTag (activeTag s) tag\<rparr>"
  have t: "allTags ?s1 = map JStr ts" using assms(2) by simp
  note h = handleTagClick_PostArray[OF assms, of gt_zero tag]
  show "fst (handleTagClick gt_zero s tag) = Normal" by (simp add: h Let_def)
  show "allPosts (snd (handleTagClick gt_zero s tag)) = PostArray P"
    using assms(1) by (simp add: h Let_def renderTags_strings[OF t])
  show "allTags (snd (handleTagClick gt_zero s tag)) = map JStr ts"
    using assms(2) by (simp add: h Let_def renderTags_strings[OF t])
  show "postsList (snd (handleTagClick gt_zero s tag)) =
           map post_json
             (case next_activeTag (activeTag s) tag of
                None \<Rightarrow> P
              | Some T \<Rightarrow> filter (\<lambda>p. \<exists>ts. tags p = Some ts \<and> T \<in> set ts) P)"
    by (simp add: h Let_def)
qed

lemmas sample_posts = post_a_def post_b_def post_c_def

lemmas lower_eval = toLowerCase_def lower_char_def char_of_def bit_0 bit_Suc

text \<open>
  C3. A click on a tag button, on an array of posts \<open>P\<close> with strings in \<open>allTags\<close> (as
  \<open>extractTags\<close> leaves them on every array of posts, by \<open>extractTags_PostArray\<close>), returns
  normally and shows the list \<open>filterPosts\<close> gives for the empty query in the new state:
  all of \<open>P\<close> when no tag is active afterwards, else the posts that carry the active tag.
  The text in the search input has no part in it: another text gives the same list.
\<close>

theorem handleTagClick_ignores_search_text:
  assumes "allPosts s = PostArray P" and "allTags s = map JStr ts"
  shows "fst (handleTagClick gt_zero s tag) = Normal \<and>
     filterPosts (snd (handleTagClick gt_zero s tag)) [] =
       Inr (JArr (postsList (snd (handleTagClick gt_zero s tag)))) \<and>
     postsList (snd (handleTagClick gt_zero s tag)) =
       map post_json
         (case activeTag (snd (handleTagClick gt_zero s tag)) of
            None \<Rightarrow> P
          | Some T \<Rightarrow> filter (\<lambda>p. \<exists>ts. tags p = Some ts \<and> T \<in> set ts) P) \<and>
     postsList (snd (handleTagClick gt_zero (s\<lparr>searchInput_value := text\<rparr>) tag)) =
       postsList (snd (handleTagClick gt_zero s tag))"
proof -
  let ?s' = "snd (handleTagClick gt_zero s tag)"
  have a: "activeTag ?s' = next_activeTag (activeTag s) tag" by (rule handleTagClick_activeTag)
  have p: "postsList ?s' =
      map post_json
        (case activeTag ?s' of
           None \<Rightarrow> P
         | Some T \<Rightarrow> filter (\<lambda>p. \<exists>ts. tags p = Some ts \<and> T \<in> set ts) P)"
    by (simp add: a handleTagClick_result(4)[OF assms])
  have "filterPosts ?s' [] =
      Inr (PostArray (case activeTag ?s' of
                        None \<Rightarrow> P
                      | Some T \<Rightarrow> filter (\<lambda>p. \<exists>ts. tags p = Some ts \<and> T \<in> set ts) P))"
    by (rule filterPosts_no_query[OF handleTagClick_result(2)[OF assms]])
      (rule handleTagClick_activeTag_nonempty)
  then have f: "filterPosts ?s' [] = Inr (JArr (postsList ?s'))"
    by (simp add: p PostArray_def)
  have t: "allPosts (s\<lparr>searchInput_value := text\<rparr>) = PostArray P"
    and u: "allTags (s\<lparr>searchInput_value := text\<rparr>) = map JStr ts"
    using assms by simp_all
  have i: "postsList (snd (handleTagClick gt_zero (s\<lparr>searchInput_value := text\<rparr>) tag)) =
      postsList ?s'"
    by (simp add: handleTagClick_result(4)[OF t u] handleTagClick_result(4)[OF assms])
  from handleTagClick_result(1)[OF assms] f p i show ?thesis by blast
qed

text \<open>
  With \<open>zzz\<close> in the search input, which no sample post contains, a click on \<open>js\<close> shows
  the second sample post.
\<close>

theorem handleTagClick_ignores_search_text_witness:
  "fst (handleTagClick sample_gt_zero
          (initial_page\<lparr>allPosts := PostArray [post_a, post_b, post_c],
                         allTags := map JStr [''css'', ''js'', ''web''],
                         searchInput_value := ''zzz''\<rparr>)
          ''js'') = Normal \<and>
   postsList (snd (handleTagClick sample_gt_zero
          (initial_page\<lparr>allPosts := PostArray [post_a, post_b, post_c],
                         allTags := map JStr [''css'', ''js'', ''web''],
                         searchInput_value := ''zzz''\<rparr>)
          ''js'')) = [post_json post_b]"
proof -
  let ?s = "initial_page\<lparr>allPosts := PostArray [post_a, post_b, post_c],
                         allTags := map JStr [''css'', ''js'', ''web''],
                         searchInput_value := ''zzz''\<rparr>"
  have a: "allPosts ?s = PostArray [post_a, post_b, post_c]"
    and b: "allTags ?s = map JStr [''css'', ''js'', ''web'']"
    by simp_all
  have t: "activeTag (snd (handleTagClick sample_gt_zero ?s ''js'')) = Some ''js''"
    by (simp add: handleTagClick_activeTag next_activeTag_def initial_page_def)
  have f: "filter (\<lambda>p. \<exists>ts. tags p = Some ts \<and> ''js'' \<in> set ts) [post_a, post_b, post_c] = [post_b]"
    by (simp add: sample_posts)
  from handleTagClick_ignores_search_text [OF a b, of sample_gt_zero "''js''" "''zzz''"] t f
  show ?thesis by simp
qed





lemmas filter_eval =
  filterPosts_def js_filter_def tag_matches_def query_matches_def includes_str_def
  sublist_Cons_right property_def truthy_value_def PostArray_def post_json_def

text \<open>The active tag \<open>css\<close> and the query \<open>JS\<close> leave the second sample post.\<close>

theorem filterPosts_tag_and_query_witness:
  "filterPosts (initial_page\<lparr>allPosts := PostArray [post_a, post_b, post_c], activeTag := Some ''css''\<rparr>)
       ''JS'' = Inr (PostArray [post_b]) \<and>
   subseq [post_b] [post_a, post_b, post_c]"
proof -
  let ?s = "initial_page\<lparr>allPosts := PostArray [post_a, post_b, post_c], activeTag := Some ''css''\<rparr>"
  have e: "filterPosts ?s ''JS'' = Inr (PostArray [post_b])"
    by (simp add: filter_eval lower_eval sample_posts)
  have "allPosts ?s = PostArray [post_a, post_b, post_c]" and "activeTag ?s \<noteq> Some []"
    by simp_all
  from filterPosts_tag_and_query [OF this, of "''JS''"]
  obtain out where "filterPosts ?s ''JS'' = Inr (PostArray out)"
    and o: "out = filter (\<lambda>p.
        (\<forall>T. activeTag ?s = Some T \<longrightarrow> (\<exists>ts. tags p = Some ts \<and> T \<in> set ts)) \<and>
        (''JS'' \<noteq> [] \<longrightarrow>
           sublist (toLowerCase ''JS'') (toLowerCase (title p)) \<or>
           sublist (toLowerCase ''JS'') (toLowerCase (excerpt p)) \<or>
           (\<exists>ts tag. tags p = Some ts \<and> tag \<in> set ts \<and>
              sublist (toLowerCase ''JS'') (toLowerCase tag)))) [post_a, post_b, post_c]"
    and "subseq out [post_a, post_b, post_c]"
    by blast
  with e show ?thesis by (simp add: PostArray_def)
qed

lemma set_foldl_tagSet_add: "set (foldl tagSet_add acc ts) = set acc \<union> set ts"
  by (induction ts arbitrary: acc) (auto simp: tagSet_add_def)

lemma distinct_foldl_tagSet_add:
  "distinct acc \<Longrightarrow> \<forall>t\<in>set ts. is_primitive t \<Longrightarrow> distinct (foldl tagSet_add acc ts)"
  by (induction ts arbitrary: acc) (auto simp: tagSet_add_def)

lemma add_post_tags_not_null:
  assumes "p \<noteq> JNull"
  shows "\<exists>acc'. add_post_tags acc p = Inr acc' \<and>
     set acc' = set acc \<union> {t. \<exists>ts. own_property p ''tags'' = Some (JArr ts) \<and> t \<in> set ts} \<and>
     (distinct acc \<longrightarrow>
        (\<forall>ts t. own_property p ''tags'' = Some (JArr ts) \<longrightarrow> t \<in> set ts \<longrightarrow> is_primitive t) \<longrightarrow>
        distinct acc')"
proof (cases "Array_isArray (own_property p ''tags'')")
  case True
  then obtain ts where ts: "own_property p ''tags'' = Some (JArr ts)"
    by (cases "own_property p ''tags''" rule: Array_isArray.cases) simp_all
  with assms show ?thesis
    by (simp add: add_post_tags_def property_def truthy_value_def set_foldl_tagSet_add
        distinct_foldl_tagSet_add)
next
  case False
  then have "\<And>ts. own_property p ''tags'' \<noteq> Some (JArr ts)" by auto
  with assms False show ?thesis by (simp add: add_post_tags_def property_def)
qed

lemma forEach_post_not_null:
  assumes "JNull \<notin> set ps"
  shows "\<exists>acc'. forEach_post acc ps = Inr acc' \<and>
     set acc' = set acc \<union>
       {t. \<exists>p ts. p \<in> set ps \<and> own_property p ''tags'' = Some (JArr ts) \<and> t \<in> set ts} \<and>
     (distinct acc \<longrightarrow>
        (\<forall>p ts t. p \<in> set ps \<longrightarrow> own_property p ''tags'' = Some (JArr ts) \<longrightarrow> t \<in> set ts \<longrightarrow>
           is_primitive t) \<longrightarrow>
        distinct acc')"
  using assms
proof (induction ps arbitrary: acc)
  case Nil
  show ?case by simp
next
  case (Cons p ps)
  then have n: "p \<noteq> JNull" and r: "JNull \<notin> set ps" by auto
  from add_post_tags_not_null[OF n, of acc] obtain acc1 where
    a: "add_post_tags acc p = Inr acc1"
    and s: "set acc1 = set acc \<union> {t. \<exists>ts. own_property p ''tags'' = Some (JArr ts) \<and> t \<in> set ts}"
    and d: "distinct acc \<longrightarrow>
        (\<forall>ts t. own_property p ''tags'' = Some (JArr ts) \<longrightarrow> t \<in> set ts \<longrightarrow> is_primitive t) \<longrightarrow>
        distinct acc1"
    by blast
  from Cons.IH[OF r, of acc1] obtain acc2 where
    f: "forEach_post acc1 ps = Inr acc2"
    and s2: "set acc2 = set acc1 \<union>
       {t. \<exists>p ts. p \<in> set ps \<and> own_property p ''tags'' = Some (JArr ts) \<and> t \<in> set ts}"
    and d2: "distinct acc1 \<longrightarrow>
        (\<forall>p ts t. p \<in> set ps \<longrightarrow> own_property p ''tags'' = Some (JArr ts) \<longrightarrow> t \<in> set ts \<longrightarrow>
           is_primitive t) \<longrightarrow>
        distinct acc2"
    by blast
  have "forEach_post acc (p # ps) = Inr acc2" using a f by simp
  moreover have "set acc2 = set acc \<union>
       {t. \<exists>q ts. q \<in> set (p # ps) \<and> own_property q ''tags'' = Some (JArr ts) \<and> t \<in> set ts}"
    using s s2 by auto
  moreover have "distinct acc \<longrightarrow>
        (\<forall>q ts t. q \<in> set (p # ps) \<longrightarrow> own_property q ''tags'' = Some (JArr ts) \<longrightarrow> t \<in> set ts \<longrightarrow>
           is_primitive t) \<longrightarrow>
        distinct acc2"
    using d d2 by auto
  ultimately show ?case by blast
qed


lemma insort_key_map:
  "insort_key f (g x) (map g ys) = map g (insort_key (\<lambda>y. f (g y)) x ys)"
  by (induction ys) simp_all

lemma sort_key_map: "sort_key f (map g xs) = map g (sort_key (\<lambda>y. f (g y)) xs)"
  by (induction xs) (simp_all add: insort_key_map)

lemma js_sort_strings: "js_sort (map JStr strs) = Inr (map JStr (sort strs))"
proof (cases "length strs < 2")
  case True
  then have "sort strs = strs" by (cases strs; cases "tl strs") simp_all
  with True show ?thesis by (simp add: js_sort_def)
next
  case False
  then show ?thesis by (simp add: js_sort_def list_ex_iff sort_key_map)
qed

lemma extractTags_collects:
  assumes "JNull \<notin> set posts"
    and "\<forall>p ts t. p \<in> set posts \<longrightarrow> own_property p ''tags'' = Some (JArr ts) \<longrightarrow> t \<in> set ts \<longrightarrow>
           (\<exists>str. t = JStr str)"
  shows "\<exists>strs. distinct strs \<and>
     set strs = {str. \<exists>p ts. p \<in> set posts \<and> own_property p ''tags'' = Some (JArr ts) \<and>
                    JStr str \<in> set ts} \<and>
     extractTags (s\<lparr>allPosts := JArr posts\<rparr>) =
       (Normal, s\<lparr>allPosts := JArr posts, allTags := map JStr (sort strs)\<rparr>)"
proof -
  let ?T = "{str. \<exists>p ts. p \<in> set posts \<and> own_property p ''tags'' = Some (JArr ts) \<and>
                    JStr str \<in> set ts}"
  have prim: "\<forall>p ts t. p \<in> set posts \<longrightarrow> own_property p ''tags'' = Some (JArr ts) \<longrightarrow> t \<in> set ts \<longrightarrow>
      is_primitive t"
    using assms(2) by fastforce
  from forEach_post_not_null[OF assms(1), of "[]"] prim obtain acc where
    f: "forEach_post [] posts = Inr acc"
    and st: "set acc =
       {t. \<exists>p ts. p \<in> set posts \<and> own_property p ''tags'' = Some (JArr ts) \<and> t \<in> set ts}"
    and d: "distinct acc"
    by auto
  from st assms(2) have "\<forall>t\<in>set acc. \<exists>str. t = JStr str" by blast
  then have "\<exists>strs. acc = map JStr strs" by (simp add: ex_map_conv)
  then obtain strs where acc: "acc = map JStr strs" by blast
  from d acc have ds: "distinct strs" by (simp add: distinct_map)
  have ss: "set strs = ?T"
  proof (rule set_eqI)
    fix x
    have "x \<in> set strs \<longleftrightarrow> JStr x \<in> set acc" using acc by auto
    also have "\<dots> \<longleftrightarrow> x \<in> ?T" using st by simp
    finally show "x \<in> set strs \<longleftrightarrow> x \<in> ?T" .
  qed
  from f acc have "extractTags (s\<lparr>allPosts := JArr posts\<rparr>) =
       (Normal, s\<lparr>allPosts := JArr posts, allTags := map JStr (sort strs)\<rparr>)"
    by (simp add: extractTags_def js_sort_strings)
  with ds ss show ?thesis by blast
qed

lemma sort_distinct_list: "distinct strs \<Longrightarrow> sort strs = sorted_list_of_set (set strs)"
  by (simp add: sorted_list_of_set_sort_remdups distinct_remdups_id)

text \<open>
  C4. For every array in \<open>allPosts\<close> whose elements are not \<open>null\<close> and whose array-valued
  \<open>tags\<close> hold strings, \<open>extractTags\<close> returns normally and leaves in \<open>allTags\<close> a
  strictly ascending sequence without duplicates whose elements are exactly the strings
  in the array-valued \<open>tags\<close> of some element: the sorted list of that set. An element
  whose \<open>tags\<close> is absent, or is there and is not an array, gives none.
\<close>

theorem extractTags_sorted_distinct_set:
  assumes "JNull \<notin> set posts"
    and "\<forall>p ts t. p \<in> set posts \<longrightarrow> own_property p ''tags'' = Some (JArr ts) \<longrightarrow> t \<in> set ts \<longrightarrow>
           (\<exists>str. t = JStr str)"
  shows "\<exists>strs.
     extractTags (s\<lparr>allPosts := JArr posts\<rparr>) =
       (Normal, s\<lparr>allPosts := JArr posts, allTags := map JStr strs\<rparr>) \<and>
     sorted_wrt (<) strs \<and> distinct strs \<and>
     set strs = {str. \<exists>p ts. p \<in> set posts \<and> own_property p ''tags'' = Some (JArr ts) \<and>
                    JStr str \<in> set ts} \<and>
     strs = sorted_list_of_set
       {str. \<exists>p ts. p \<in> set posts \<and> own_property p ''tags'' = Some (JArr ts) \<and>
          JStr str \<in> set ts}"
proof -
  from extractTags_collects[OF assms, of s] obtain strs0 where
    d: "distinct strs0"
    and st: "set strs0 = {str. \<exists>p ts. p \<in> set posts \<and> own_property p ''tags'' = Some (JArr ts) \<and>
                    JStr str \<in> set ts}"
    and e: "extractTags (s\<lparr>allPosts := JArr posts\<rparr>) =
       (Normal, s\<lparr>allPosts := JArr posts, allTags := map JStr (sort strs0)\<rparr>)"
    by blast
  have "sorted_wrt (<) (sort strs0)" using d by (simp add: strict_sorted_iff)
  moreover have "distinct (sort strs0)" using d by simp
  moreover have "set (sort strs0) = set strs0" by simp
  moreover have "sort strs0 = sorted_list_of_set (set strs0)" by (rule sort_distinct_list[OF d])
  ultimately show ?thesis using e st by metis
qed

text \<open>
  Three sample posts with the tags \<open>web css\<close>, \<open>js css\<close> and none, among an object whose
  \<open>tags\<close> is the string \<open>css\<close>, the object \<open>{}\<close> and the number 1.
\<close>

theorem extractTags_sorted_distinct_set_witness:
  "extractTags (initial_page\<lparr>allPosts :=
       JArr [string_tags_post, post_json post_a, JObj [], post_json post_b, JNum ''1'',
             post_json post_c]\<rparr>) =
     (Normal, initial_page\<lparr>allPosts :=
       JArr [string_tags_post, post_json post_a, JObj [], post_json post_b, JNum ''1'',
             post_json post_c],
       allTags := map JStr [''css'', ''js'', ''web'']\<rparr>)"
proof -
  let ?posts = "[string_tags_post, post_json post_a, JObj [], post_json post_b, JNum ''1'',
             post_json post_c]"
  have n: "JNull \<notin> set ?posts" by (simp add: string_tags_post_def)
  have h: "\<forall>p ts t. p \<in> set ?posts \<longrightarrow> own_property p ''tags'' = Some (JArr ts) \<longrightarrow> t \<in> set ts \<longrightarrow>
           (\<exists>str. t = JStr str)"
    by (auto simp: string_tags_post_def sample_posts)
  have e: "extractTags (initial_page\<lparr>allPosts := JArr ?posts\<rparr>) =
     (Normal, initial_page\<lparr>allPosts := JArr ?posts, allTags := map JStr [''css'', ''js'', ''web'']\<rparr>)"
    by (simp add: extractTags_def add_post_tags_def property_def truthy_value_def tagSet_add_def
        js_sort_def string_tags_post_def sample_posts)
  from extractTags_sorted_distinct_set[OF n h, of initial_page] e show ?thesis by simp
qed









lemma no_properties_own [simp]: "no_properties e \<Longrightarrow> own_property e name = None"
  by (cases e) (simp_all add: no_properties_def)







lemma renderTags_loading [simp]:
  "loading_failed (snd (renderTags s)) = loading_failed s"
  "loading_display (snd (renderTags s)) = loading_display s"
  "allTags (snd (renderTags s)) = allTags s"
  by (simp_all add: renderTags_def)







section \<open>The search box: proofs\<close>

lemma handleSearch_armed_from_armed:
  assumes "armed st t x" and "t \<le> t'"
  shows "armed (handleSearch (advance st t') x') t' x'"
    and "calls (handleSearch (advance st t') x') =
           calls st @ (if t + 300 \<le> t' then [(t + 300, trim x)] else [])"
  using assms
  by (auto simp: armed_def handleSearch_def advance_def clearTimeout_def setTimeout_def
      DEBOUNCE_DELAY_def Let_def max_def)

lemma handleSearch_armed_initial:
  shows "armed (handleSearch (advance initial_search t) x) t x"
    and "calls (handleSearch (advance initial_search t) x) = []"
  by (auto simp: armed_def handleSearch_def advance_def setTimeout_def initial_search_def
      DEBOUNCE_DELAY_def Let_def)

lemma advance_armed_calls:
  assumes "armed st t x"
  shows "calls (advance st T) = calls st @ (if t + 300 \<le> T then [(t + 300, trim x)] else [])"
  using assms by (auto simp: armed_def advance_def)

lemma run_inputs_armed:
  assumes "armed st t x" and "sorted (t # map fst evs)" and "list_all (\<lambda>e. fst e \<le> T) evs"
  shows "calls (advance (run_inputs st evs) T) = calls st @ debounced ((t, x) # evs) T"
  using assms
proof (induction evs arbitrary: st t x)
  case Nil
  then show ?case by (simp add: advance_armed_calls)
next
  case (Cons e evs)
  obtain t' x' where e: "e = (t', x')" by (cases e)
  from Cons.prems e have le: "t \<le> t'" by simp
  let ?st' = "handleSearch (advance st t') x'"
  have a: "armed ?st' t' x'" by (rule handleSearch_armed_from_armed(1)[OF Cons.prems(1) le])
  have c: "calls ?st' = calls st @ (if t + 300 \<le> t' then [(t + 300, trim x)] else [])"
    by (rule handleSearch_armed_from_armed(2)[OF Cons.prems(1) le])
  from Cons.prems e have s: "sorted (t' # map fst evs)" and l: "list_all (\<lambda>e. fst e \<le> T) evs"
    by simp_all
  from Cons.IH[OF a s l] c e show ?case by simp
qed

lemma run_inputs_initial:
  assumes "sorted (map fst evs)" and "list_all (\<lambda>e. fst e \<le> T) evs"
  shows "calls (advance (run_inputs initial_search evs) T) = debounced evs T"
proof (cases evs)
  case Nil
  then show ?thesis by (simp add: advance_def initial_search_def)
next
  case (Cons e es)
  obtain t x where e: "e = (t, x)" by (cases e)
  from assms Cons e have s: "sorted (t # map fst es)" and l: "list_all (\<lambda>e. fst e \<le> T) es"
    by simp_all
  from run_inputs_armed[OF handleSearch_armed_initial(1) s l, of x] Cons e
  show ?thesis by (simp add: handleSearch_armed_initial(2))
qed

text \<open>
  C8. For input events in the order of their times, watched up to a time \<open>T\<close> not before
  the last of them, the calls of \<open>updateSearchResults\<close> are those of the trailing-edge
  debounce with a window of 300 ms: one call for each event that no other event follows
  within 300 ms, made 300 ms after the event with the event's trimmed text. Three events
  at 0, 100 and 150 ms, watched up to 450 ms or longer, give one call, at 450 ms, with the
  trimmed text of the third.
\<close>

theorem handleSearch_trailing_debounce:
  "(sorted (map fst evs) \<and> list_all (\<lambda>e. fst e \<le> T) evs \<longrightarrow>
      calls (advance (run_inputs initial_search evs) T) = debounced evs T) \<and>
   (450 \<le> T \<longrightarrow>
      calls (advance (run_inputs initial_search [(0, x1), (100, x2), (150, x3)]) T) =
        [(450, trim x3)])"
proof (intro conjI impI)
  assume "sorted (map fst evs) \<and> list_all (\<lambda>e. fst e \<le> T) evs"
  then show "calls (advance (run_inputs initial_search evs) T) = debounced evs T"
    by (simp add: run_inputs_initial)
next
  assume T: "450 \<le> T"
  then have "calls (advance (run_inputs initial_search [(0, x1), (100, x2), (150, x3)]) T) =
      debounced [(0, x1), (100, x2), (150, x3)] T"
    by (intro run_inputs_initial) simp_all
  with T show "calls (advance (run_inputs initial_search [(0, x1), (100, x2), (150, x3)]) T) =
      [(450, trim x3)]"
    by simp
qed

text \<open>
  Events at 0, 100, 150 and 500 ms watched up to 600 ms: the call at 450 ms has been made,
  the one for the last event is pending. The three events alone, watched up to 450 ms.
\<close>

theorem handleSearch_trailing_debounce_witness:
  "calls (advance (run_inputs initial_search [(0, ''c''), (100, ''cs''), (150, '' css ''), (500, ''j'')]) 600) =
     [(450, ''css'')] \<and>
   calls (advance (run_inputs initial_search [(0, ''c''), (100, ''cs''), (150, '' css '')]) 450) =
     [(450, ''css'')]"
  using handleSearch_trailing_debounce
      [of "[(0, ''c''), (100, ''cs''), (150, '' css ''), (500, ''j'')]" 600]
    handleSearch_trailing_debounce [of "[]" 450 "''c''" "''cs''" "'' css ''"]
  by (simp add: trim_def is_ws_def)

section \<open>The theme: proofs\<close>

lemma on_system_change_stored [simp]: "stored_theme (on_system_change st m) = stored_theme st"
  by (simp add: on_system_change_def setTheme_def)

lemma toggleTheme_stored: "truthy (stored_theme (toggleTheme st))"
  by (simp add: toggleTheme_def setTheme_def DARK_THEME_def LIGHT_THEME_def Let_def)

lemma theme_step_keeps_preference:
  "truthy (stored_theme st) \<Longrightarrow> truthy (stored_theme (theme_step st ev))"
  by (cases ev) (simp_all add: toggleTheme_stored)

lemma theme_steps_keep_preference:
  "truthy (stored_theme st) \<Longrightarrow> truthy (stored_theme (foldl theme_step st evs))"
  by (induction evs arbitrary: st) (simp_all add: theme_step_keeps_preference)

lemma on_system_change_ignored:
  "truthy (stored_theme st) \<Longrightarrow> on_system_change st m = st"
  by (simp add: on_system_change_def)

lemma system_changes_ignored:
  "truthy (stored_theme st) \<Longrightarrow> foldl on_system_change st ms = st"
  by (induction ms) (simp_all add: on_system_change_ignored)

lemma system_changes_mirrored:
  "\<not> truthy (stored_theme st) \<Longrightarrow>
     data_theme (foldl on_system_change st (ms @ [m])) =
       Some (if m then DARK_THEME else LIGHT_THEME)"
proof -
  assume n: "\<not> truthy (stored_theme st)"
  have "stored_theme (foldl on_system_change st ms) = stored_theme st"
    by (induction ms rule: rev_induct) simp_all
  with n show ?thesis by (simp add: on_system_change_def setTheme_def)
qed

text \<open>
  C9. Without a stored preference \<open>initTheme\<close> sets the theme the system reports, and the
  theme after any further notifications of the system is the one the last of them reports.
  \<open>toggleTheme\<close> flips the theme and stores it. From then on, whatever clicks and
  notifications follow, a notification of the system changes nothing; a theme toggled from
  dark to light is light after any notifications of the system.
\<close>

theorem theme_follows_system_until_toggle:
  "(stored_theme st = None \<longrightarrow>
      data_theme (initTheme st prefersDark) = Some (if prefersDark then ''dark'' else ''light'') \<and>
      data_theme (foldl on_system_change (initTheme st prefersDark) (ms @ [m])) =
        Some (if m then ''dark'' else ''light'')) \<and>
   data_theme (toggleTheme st) = Some (if data_theme st = Some ''dark'' then ''light'' else ''dark'') \<and>
   stored_theme (toggleTheme st) = data_theme (toggleTheme st) \<and>
   on_system_change (foldl theme_step (toggleTheme st) evs) m =
     foldl theme_step (toggleTheme st) evs \<and>
   (data_theme st = Some ''dark'' \<longrightarrow>
      data_theme (foldl on_system_change (toggleTheme st) ms) = Some ''light'')"
proof (intro conjI impI)
  assume n: "stored_theme st = None"
  then show "data_theme (initTheme st prefersDark) = Some (if prefersDark then ''dark'' else ''light'')"
    by (simp add: initTheme_def setTheme_def DARK_THEME_def LIGHT_THEME_def)
  from n have "\<not> truthy (stored_theme (initTheme st prefersDark))"
    by (simp add: initTheme_def setTheme_def)
  from system_changes_mirrored[OF this]
  show "data_theme (foldl on_system_change (initTheme st prefersDark) (ms @ [m])) =
        Some (if m then ''dark'' else ''light'')"
    by (simp add: DARK_THEME_def LIGHT_THEME_def)
next
  show "data_theme (toggleTheme st) = Some (if data_theme st = Some ''dark'' then ''light'' else ''dark'')"
    by (simp add: toggleTheme_def setTheme_def DARK_THEME_def LIGHT_THEME_def Let_def)
  show "stored_theme (toggleTheme st) = data_theme (toggleTheme st)"
    by (simp add: toggleTheme_def setTheme_def Let_def)
  show "on_system_change (foldl theme_step (toggleTheme st) evs) m =
     foldl theme_step (toggleTheme st) evs"
    by (rule on_system_change_ignored) (rule theme_steps_keep_preference, rule toggleTheme_stored)
next
  assume "data_theme st = Some ''dark''"
  then show "data_theme (foldl on_system_change (toggleTheme st) ms) = Some ''light''"
    by (simp add: system_changes_ignored toggleTheme_stored)
      (simp add: toggleTheme_def setTheme_def DARK_THEME_def LIGHT_THEME_def Let_def)
qed

text \<open>
  No stored preference and a dark system: the theme is dark, follows the system to light,
  and after a toggle from dark to light stays light through three notifications.
\<close>

theorem theme_follows_system_until_toggle_witness:
  "data_theme (initTheme \<lparr>data_theme = None, stored_theme = None\<rparr> True) = Some ''dark'' \<and>
   data_theme (foldl on_system_change (initTheme \<lparr>data_theme = None, stored_theme = None\<rparr> True)
      [True, False]) = Some ''light'' \<and>
   data_theme (foldl on_system_change
      (toggleTheme (initTheme \<lparr>data_theme = None, stored_theme = None\<rparr> True)) [True, False, True]) =
     Some ''light''"
  using theme_follows_system_until_toggle
      [of "\<lparr>data_theme = None, stored_theme = None\<rparr>" True "[True]" False "[]"]
    theme_follows_system_until_toggle
      [of "initTheme \<lparr>data_theme = None, stored_theme = None\<rparr> True" True "[True, False, True]" False "[]"]
  by (simp add: initTheme_def setTheme_def DARK_THEME_def)

end
